theory Spec2Isabelle
  imports Complex_Main "HOL-Library.Word" "HOL-Library.Finite_Map"
begin

section \<open>CPU tick samples and their rendering (metric/cpu/cpu.go)\<close>

subsection \<open>Optional unsigned counters\<close>

text \<open>
  The tick counters are \<open>opt.Uint\<close> values of the library elastic-agent-libs: a
  64-bit unsigned value together with an "exists" flag.  An absent counter is \<open>None\<close>,
  a present one \<open>Some v\<close>.  \<open>IsZero\<close> is true exactly of the absent counter,
  \<open>ValueOr\<close> reads the value or the given default, and \<open>SumOptUint\<close> adds up
  \<open>ValueOr 0\<close> of its arguments in \<open>uint64\<close>, so the sum wraps around.
\<close>

type_synonym uint64 = "64 word"
type_synonym optUint = "uint64 option"

definition IsZero :: "optUint \<Rightarrow> bool" where
  "IsZero x = (x = None)"

definition ValueOr :: "optUint \<Rightarrow> uint64 \<Rightarrow> uint64" where
  "ValueOr x d = (case x of None \<Rightarrow> d | Some v \<Rightarrow> v)"

definition SumOptUint :: "optUint list \<Rightarrow> uint64" where
  "SumOptUint xs = foldl (\<lambda>s x. s + ValueOr x 0) 0 xs"

subsection \<open>The data model\<close>

record CPU =
  User :: optUint
  Sys :: optUint
  Idle :: optUint
  Nice :: optUint
  Irq :: optUint
  Wait :: optUint
  SoftIrq :: optUint
  Stolen :: optUint

record MetricOpts =
  Ticks :: bool
  Percentages :: bool
  NormalizedPercentages :: bool

text \<open>
  \<open>'f\<close> stands for Go's \<open>float64\<close>.  The floating-point operations that the
  code uses are parameters of the model, collected in a record: the conversion of an
  integer (\<open>float64(x)\<close>), division, multiplication, addition, subtraction, the
  comparison with zero that the equality of two structs performs on a float field, and
  \<open>metric.Round\<close>, which lives in package \<open>metric\<close>.  Nothing is assumed about
  them, so what is proved holds for IEEE arithmetic as for any other.
\<close>

record 'f fops =
  float64 :: "int \<Rightarrow> 'f"
  fdiv :: "'f \<Rightarrow> 'f \<Rightarrow> 'f"
  fmul :: "'f \<Rightarrow> 'f \<Rightarrow> 'f"
  fadd :: "'f \<Rightarrow> 'f \<Rightarrow> 'f"
  fsub :: "'f \<Rightarrow> 'f \<Rightarrow> 'f"
  feqZero :: "'f \<Rightarrow> bool"
  Round :: "'f \<Rightarrow> 'f"

record 'f CPUInfo =
  ModelName :: string
  ModelNumber :: string
  Mhz :: 'f
  PhysicalID :: int
  CoreID :: int

record 'f CPUMetrics =
  totals :: CPU
  list :: "CPU list"
  CPUInfo :: "'f CPUInfo list"

record 'f Metrics =
  previousSample :: CPU
  currentSample :: CPU
  count :: int
  cpuInfo :: "'f CPUInfo"
  isTotals :: bool

text \<open>The zero values \<open>CPU{}\<close> and \<open>CPUInfo{}\<close>; the float zero is \<open>float64 0\<close>.\<close>

definition zeroCPU :: CPU where
  "zeroCPU = \<lparr>User = None, Sys = None, Idle = None, Nice = None, Irq = None,
     Wait = None, SoftIrq = None, Stolen = None\<rparr>"

definition zeroCPUInfo :: "'f fops \<Rightarrow> 'f CPUInfo" where
  "zeroCPUInfo F = \<lparr>ModelName = [], ModelNumber = [], Mhz = float64 F 0,
     PhysicalID = 0, CoreID = 0\<rparr>"

text \<open>
  \<open>metric.cpuInfo != (CPUInfo{})\<close> compares the two structs field by field; the
  float field is compared as floats are, against zero.
\<close>

definition neqZeroCPUInfo :: "'f fops \<Rightarrow> 'f CPUInfo \<Rightarrow> bool" where
  "neqZeroCPUInfo F ci \<longleftrightarrow>
     ModelName ci \<noteq> [] \<or> ModelNumber ci \<noteq> [] \<or> \<not> feqZero F (Mhz ci) \<or>
     PhysicalID ci \<noteq> 0 \<or> CoreID ci \<noteq> 0"

definition Total :: "CPU \<Rightarrow> uint64" where
  "Total cpu = SumOptUint [User cpu, Nice cpu, Sys cpu, Idle cpu, Wait cpu, Irq cpu,
     SoftIrq cpu, Stolen cpu]"

subsection \<open>The output map\<close>

text \<open>
  \<open>mapstr.M\<close> (elastic-agent-libs) is a Go map from strings to values of any type,
  possibly maps again.  \<open>Put\<close> stores a value under a dotted key: when the key as a
  whole is present it is overwritten; otherwise the key is cut at its first dot, the
  map under the first part is created when missing, and the rest of the key is put
  there.  When the first part holds a value that is no map, \<open>Put\<close> fails and the
  map stays as it is.  The code discards both results of \<open>Put\<close>, so the model
  returns the updated map only.
\<close>

datatype 'f mval =
    VUint uint64
  | VFloat 'f
  | VString string
  | VInt int
  | VMap "(string, 'f mval) fmap"

type_synonym 'f M = "(string, 'f mval) fmap"

fun IndexRune :: "string \<Rightarrow> char \<Rightarrow> int" where
  "IndexRune [] c = - 1"
| "IndexRune (x # xs) c =
     (if x = c then 0
      else (let r = IndexRune xs c in if r < 0 then - 1 else r + 1))"

function Put :: "string \<Rightarrow> 'f mval \<Rightarrow> 'f M \<Rightarrow> 'f M" where
  "Put key v data =
     (if fmlookup data key \<noteq> None then fmupd key v data
      else if IndexRune key (CHR ''.'') < 0 then fmupd key v data
      else
        (case fmlookup data (take (nat (IndexRune key (CHR ''.''))) key) of
           None \<Rightarrow>
             fmupd (take (nat (IndexRune key (CHR ''.''))) key)
               (VMap (Put (drop (nat (IndexRune key (CHR ''.'')) + 1) key) v fmempty)) data
         | Some (VMap d) \<Rightarrow>
             fmupd (take (nat (IndexRune key (CHR ''.''))) key)
               (VMap (Put (drop (nat (IndexRune key (CHR ''.'')) + 1) key) v d)) data
         | Some _ \<Rightarrow> data))"
  by pat_completeness auto
termination
proof (relation "measure (\<lambda>(key, v, data). length key)")
  show "wf (measure (\<lambda>(key, v, data). length key))" by simp
next
  have IndexRune_bound: "IndexRune key c < int (length key)" for key c
    by (induction key) (auto simp: Let_def)
  {
  fix key :: string and v :: "'f mval" and data :: "'f M"
  assume "\<not> IndexRune key (CHR ''.'') < 0"
  moreover have "IndexRune key (CHR ''.'') < int (length key)" by (rule IndexRune_bound)
  ultimately have "0 < length key" by (cases key) auto
  then show "((drop (nat (IndexRune key (CHR ''.'')) + 1) key, v, fmempty), key, v, data)
      \<in> measure (\<lambda>(key, v, data). length key)" by simp
  next
  fix key :: string and v :: "'f mval" and data :: "'f M" and x2 x5
  assume "\<not> IndexRune key (CHR ''.'') < 0"
  moreover have "IndexRune key (CHR ''.'') < int (length key)" by (rule IndexRune_bound)
  ultimately have "0 < length key" by (cases key) auto
  then show "((drop (nat (IndexRune key (CHR ''.'')) + 1) key, v, x5), key, v, data)
      \<in> measure (\<lambda>(key, v, data). length key)" by simp
  }
qed

declare Put.simps [simp del]

subsection \<open>Percentages\<close>

definition cpuMetricTimeDelta ::
  "'f fops \<Rightarrow> optUint \<Rightarrow> optUint \<Rightarrow> uint64 \<Rightarrow> int \<Rightarrow> 'f" where
  "cpuMetricTimeDelta F prev current timeDelta numCPU =
     (let cpuDelta = sint (ValueOr current 0 - ValueOr prev 0);
          pct = fdiv F (float64 F cpuDelta) (float64 F (uint timeDelta))
      in Round F (fmul F pct (float64 F numCPU)))"

definition createTotal :: "'f fops \<Rightarrow> CPU \<Rightarrow> CPU \<Rightarrow> uint64 \<Rightarrow> int \<Rightarrow> 'f" where
  "createTotal F prev cur timeDelta numCPU =
     (let idleTime = cpuMetricTimeDelta F (Idle prev) (Idle cur) timeDelta numCPU;
          idleTime = (if \<not> IsZero (Wait cur)
                      then fadd F idleTime
                             (cpuMetricTimeDelta F (Wait prev) (Wait cur) timeDelta numCPU)
                      else idleTime)
      in Round F (fsub F (float64 F numCPU) idleTime))"

definition fillMetric ::
  "'f fops \<Rightarrow> MetricOpts \<Rightarrow> optUint \<Rightarrow> optUint \<Rightarrow> uint64 \<Rightarrow> int \<Rightarrow> 'f M" where
  "fillMetric F opts cur prev timeDelta numCPU =
     (let event = fmempty;
          event = (if Ticks opts then Put ''ticks'' (VUint (ValueOr cur 0)) event
                   else event);
          event = (if Percentages opts
                   then Put ''pct''
                          (VFloat (cpuMetricTimeDelta F prev cur timeDelta numCPU)) event
                   else event);
          event = (if NormalizedPercentages opts
                   then Put ''norm.pct''
                          (VFloat (cpuMetricTimeDelta F prev cur timeDelta 1)) event
                   else event)
      in event)"

text \<open>
  The closure \<open>reportOptMetric\<close> of \<open>Format\<close> captures the options, the window
  delta and the output map; here they are arguments, and the updated map is returned.
\<close>

definition reportOptMetric ::
  "'f fops \<Rightarrow> MetricOpts \<Rightarrow> uint64 \<Rightarrow> string \<Rightarrow> optUint \<Rightarrow> optUint \<Rightarrow> int \<Rightarrow>
     'f M \<Rightarrow> 'f M" where
  "reportOptMetric F opts timeDelta name current previous nrm formattedMetrics =
     (if \<not> IsZero current
      then fmupd name (VMap (fillMetric F opts current previous timeDelta nrm))
             formattedMetrics
      else formattedMetrics)"

datatype error = New string | Errorf string error

definition Format :: "'f fops \<Rightarrow> 'f Metrics \<Rightarrow> MetricOpts \<Rightarrow> error + 'f M" where
  "Format F metric opts =
     (let timeDelta = Total (currentSample metric) - Total (previousSample metric) in
      if timeDelta \<le> 0 then Inl (New ''previous sample is newer than current sample'')
      else
        let normCPU = (if \<not> isTotals metric then 1 else count metric);
            cur = currentSample metric;
            prev = previousSample metric;
            fm = fmempty;
            fm = (if Percentages opts
                  then Put ''total.pct'' (VFloat (createTotal F prev cur timeDelta normCPU)) fm
                  else fm);
            fm = (if NormalizedPercentages opts
                  then Put ''total.norm.pct'' (VFloat (createTotal F prev cur timeDelta 1)) fm
                  else fm);
            fm = reportOptMetric F opts timeDelta ''user'' (User cur) (User prev) normCPU fm;
            fm = reportOptMetric F opts timeDelta ''system'' (Sys cur) (Sys prev) normCPU fm;
            fm = reportOptMetric F opts timeDelta ''idle'' (Idle cur) (Idle prev) normCPU fm;
            fm = reportOptMetric F opts timeDelta ''nice'' (Nice cur) (Nice prev) normCPU fm;
            fm = reportOptMetric F opts timeDelta ''irq'' (Irq cur) (Irq prev) normCPU fm;
            fm = reportOptMetric F opts timeDelta ''iowait'' (Wait cur) (Wait prev) normCPU fm;
            fm = reportOptMetric F opts timeDelta ''softirq'' (SoftIrq cur) (SoftIrq prev)
                   normCPU fm;
            fm = reportOptMetric F opts timeDelta ''steal'' (Stolen cur) (Stolen prev)
                   normCPU fm;
            fm = (if \<not> isTotals metric then
                    (if neqZeroCPUInfo F (cpuInfo metric)
                     then
                       fmupd ''physical_id'' (VInt (PhysicalID (cpuInfo metric)))
                         (fmupd ''core_id'' (VInt (CoreID (cpuInfo metric)))
                           (fmupd ''mhz'' (VFloat (Mhz (cpuInfo metric)))
                             (fmupd ''model_name'' (VString (ModelName (cpuInfo metric)))
                               (fmupd ''model_number''
                                  (VString (ModelNumber (cpuInfo metric))) fm))))
                     else fm)
                  else fm)
        in Inr fm)"

subsection \<open>The monitor\<close>

text \<open>
  The monitor keeps the last snapshot.  The collector \<open>Get\<close> is platform code
  outside this file; it is a parameter of the model, a function from the monitor to
  either an error or a snapshot, which reads the monitor and does not assign
  \<open>lastSample\<close>.  A method on \<open>*Monitor\<close> returns its result together with
  the monitor it leaves behind.
\<close>

record 'f Monitor =
  lastSample :: "'f CPUMetrics"

definition zeroMetrics :: "'f fops \<Rightarrow> 'f Metrics" where
  "zeroMetrics F = \<lparr>previousSample = zeroCPU, currentSample = zeroCPU, count = 0,
     cpuInfo = zeroCPUInfo F, isTotals = False\<rparr>"

definition Fetch ::
  "('f Monitor \<Rightarrow> error + 'f CPUMetrics) \<Rightarrow> 'f fops \<Rightarrow> 'f Monitor \<Rightarrow>
     (error + 'f Metrics) \<times> 'f Monitor" where
  "Fetch Get F m =
     (case Get m of
        Inl err \<Rightarrow> (Inl (Errorf ''error fetching CPU metrics: '' err), m)
      | Inr metric \<Rightarrow>
          (let oldLastSample = lastSample m;
               m = m\<lparr>lastSample := metric\<rparr>
           in (Inr \<lparr>previousSample = totals oldLastSample,
                     currentSample = totals metric,
                     count = int (length (list metric)),
                     cpuInfo = zeroCPUInfo F,
                     isTotals = True\<rparr>, m)))"

text \<open>
  \<open>FetchCores\<close> can end in three ways: it returns the list, it returns the
  collector's error, or the index expression \<open>metric.CPUInfo[i]\<close> panics.
\<close>

datatype fault = Error error | IndexOutOfRange nat nat

function coresLoop ::
  "'f fops \<Rightarrow> 'f CPUMetrics \<Rightarrow> 'f CPUMetrics \<Rightarrow> nat \<Rightarrow> 'f Metrics list \<Rightarrow>
     fault + 'f Metrics list" where
  "coresLoop F metric lastS i coreMetrics =
     (if i < length (list metric) then
        (let lastMetric = (if length (list lastS) > i then list lastS ! i else zeroCPU);
             coreMetrics = coreMetrics[i := \<lparr>previousSample = lastMetric,
                                              currentSample = list metric ! i,
                                              count = 0,
                                              cpuInfo = zeroCPUInfo F,
                                              isTotals = False\<rparr>]
         in if length (CPUInfo metric) \<noteq> 0 then
              (if i < length (CPUInfo metric)
               then coresLoop F metric lastS (i + 1)
                      (coreMetrics[i := (coreMetrics ! i)\<lparr>cpuInfo := CPUInfo metric ! i\<rparr>])
               else Inl (IndexOutOfRange i (length (CPUInfo metric))))
            else coresLoop F metric lastS (i + 1) coreMetrics)
      else Inr coreMetrics)"
  by pat_completeness auto
termination
  by (relation "measure (\<lambda>(F, metric, lastS, i, coreMetrics). length (list metric) - i)") auto

declare coresLoop.simps [simp del]

definition FetchCores ::
  "('f Monitor \<Rightarrow> error + 'f CPUMetrics) \<Rightarrow> 'f fops \<Rightarrow> 'f Monitor \<Rightarrow>
     (fault + 'f Metrics list) \<times> 'f Monitor" where
  "FetchCores Get F m =
     (case Get m of
        Inl err \<Rightarrow> (Inl (Error (Errorf ''error fetching CPU metrics: '' err)), m)
      | Inr metric \<Rightarrow>
          (case coresLoop F metric (lastSample m) 0
                  (replicate (length (list metric)) (zeroMetrics F)) of
             Inl p \<Rightarrow> (Inl p, m)
           | Inr coreMetrics \<Rightarrow> (Inr coreMetrics, m\<lparr>lastSample := metric\<rparr>)))"


subsection \<open>Reading the output\<close>

text \<open>
  \<open>lookupPath\<close> follows a list of keys down the nested maps.  The eight categories
  of \<open>Format\<close> are named by a datatype, with the output key and the field of each.
\<close>

fun lookupPath :: "string list \<Rightarrow> 'f mval \<Rightarrow> 'f mval option" where
  "lookupPath [] v = Some v"
| "lookupPath (k # ks) (VMap m) =
     (case fmlookup m k of None \<Rightarrow> None | Some v \<Rightarrow> lookupPath ks v)"
| "lookupPath (k # ks) v = None"

datatype category = CUser | CSystem | CIdle | CNice | CIrq | CIowait | CSoftirq | CSteal

fun catName :: "category \<Rightarrow> string" where
  "catName CUser = ''user''"
| "catName CSystem = ''system''"
| "catName CIdle = ''idle''"
| "catName CNice = ''nice''"
| "catName CIrq = ''irq''"
| "catName CIowait = ''iowait''"
| "catName CSoftirq = ''softirq''"
| "catName CSteal = ''steal''"

fun catField :: "category \<Rightarrow> CPU \<Rightarrow> optUint" where
  "catField CUser cpu = User cpu"
| "catField CSystem cpu = Sys cpu"
| "catField CIdle cpu = Idle cpu"
| "catField CNice cpu = Nice cpu"
| "catField CIrq cpu = Irq cpu"
| "catField CIowait cpu = Wait cpu"
| "catField CSoftirq cpu = SoftIrq cpu"
| "catField CSteal cpu = Stolen cpu"

text \<open>
  The body of \<open>Format\<close> after the check of the window delta, cut into its three
  stages (the total, the categories, the CPU information), for the proofs.
\<close>

definition totalStage :: "'f fops \<Rightarrow> 'f Metrics \<Rightarrow> MetricOpts \<Rightarrow> 'f M" where
  "totalStage F metric opts =
     (let timeDelta = Total (currentSample metric) - Total (previousSample metric);
          normCPU = (if \<not> isTotals metric then 1 else count metric);
          cur = currentSample metric;
          prev = previousSample metric;
          fm = fmempty;
          fm = (if Percentages opts
                then Put ''total.pct'' (VFloat (createTotal F prev cur timeDelta normCPU)) fm
                else fm);
          fm = (if NormalizedPercentages opts
                then Put ''total.norm.pct'' (VFloat (createTotal F prev cur timeDelta 1)) fm
                else fm)
      in fm)"

definition catStage :: "'f fops \<Rightarrow> 'f Metrics \<Rightarrow> MetricOpts \<Rightarrow> 'f M \<Rightarrow> 'f M" where
  "catStage F metric opts fm0 =
     (let timeDelta = Total (currentSample metric) - Total (previousSample metric);
          normCPU = (if \<not> isTotals metric then 1 else count metric);
          cur = currentSample metric;
          prev = previousSample metric;
          fm = reportOptMetric F opts timeDelta ''user'' (User cur) (User prev) normCPU fm0;
          fm = reportOptMetric F opts timeDelta ''system'' (Sys cur) (Sys prev) normCPU fm;
          fm = reportOptMetric F opts timeDelta ''idle'' (Idle cur) (Idle prev) normCPU fm;
          fm = reportOptMetric F opts timeDelta ''nice'' (Nice cur) (Nice prev) normCPU fm;
          fm = reportOptMetric F opts timeDelta ''irq'' (Irq cur) (Irq prev) normCPU fm;
          fm = reportOptMetric F opts timeDelta ''iowait'' (Wait cur) (Wait prev) normCPU fm;
          fm = reportOptMetric F opts timeDelta ''softirq'' (SoftIrq cur) (SoftIrq prev)
                 normCPU fm;
          fm = reportOptMetric F opts timeDelta ''steal'' (Stolen cur) (Stolen prev)
                 normCPU fm
      in fm)"

definition infoStage :: "'f fops \<Rightarrow> 'f Metrics \<Rightarrow> 'f M \<Rightarrow> 'f M" where
  "infoStage F metric fm =
     (if \<not> isTotals metric then
        (if neqZeroCPUInfo F (cpuInfo metric)
         then
           fmupd ''physical_id'' (VInt (PhysicalID (cpuInfo metric)))
             (fmupd ''core_id'' (VInt (CoreID (cpuInfo metric)))
               (fmupd ''mhz'' (VFloat (Mhz (cpuInfo metric)))
                 (fmupd ''model_name'' (VString (ModelName (cpuInfo metric)))
                   (fmupd ''model_number'' (VString (ModelNumber (cpuInfo metric))) fm))))
         else fm)
      else fm)"

text \<open>
  The ratio of one category before it is rounded, and the total as it would be were
  the ratios rounded only once, at the end (the reading of the specification that
  \<open>createTotal\<close> is compared with).
\<close>

definition ratio :: "'f fops \<Rightarrow> optUint \<Rightarrow> optUint \<Rightarrow> uint64 \<Rightarrow> int \<Rightarrow> 'f" where
  "ratio F prev current timeDelta numCPU =
     fmul F (fdiv F (float64 F (sint (ValueOr current 0 - ValueOr prev 0)))
               (float64 F (uint timeDelta)))
       (float64 F numCPU)"

definition totalRoundedOnce :: "'f fops \<Rightarrow> CPU \<Rightarrow> CPU \<Rightarrow> uint64 \<Rightarrow> int \<Rightarrow> 'f" where
  "totalRoundedOnce F prev cur timeDelta numCPU =
     Round F (fsub F (float64 F numCPU)
       (if Wait cur = None then ratio F (Idle prev) (Idle cur) timeDelta numCPU
        else fadd F (ratio F (Idle prev) (Idle cur) timeDelta numCPU)
               (ratio F (Wait prev) (Wait cur) timeDelta numCPU)))"

text \<open>The entry that \<open>FetchCores\<close> builds for core \<open>i\<close>.\<close>

definition coreEntry :: "'f fops \<Rightarrow> 'f CPUMetrics \<Rightarrow> 'f CPUMetrics \<Rightarrow> nat \<Rightarrow> 'f Metrics" where
  "coreEntry F metric lastS i =
     \<lparr>previousSample = (if length (list lastS) > i then list lastS ! i else zeroCPU),
      currentSample = list metric ! i,
      count = 0,
      cpuInfo = (if length (CPUInfo metric) \<noteq> 0 then CPUInfo metric ! i else zeroCPUInfo F),
      isTotals = False\<rparr>"

subsection \<open>An instance with exact arithmetic, and sample inputs\<close>

text \<open>
  Modelled from the spec: \<open>metric.Round\<close> of package \<open>metric\<close>, whose source is
  not part of the files at hand.  The specification rounds "to two-decimal precision"
  and gives \<open>round(10/45) = 0.22\<close> and \<open>round(30/45) = 0.67\<close>.  The instance
  \<open>exactOps\<close> computes in the reals; it serves for the concrete examples only.
\<close>

definition roundDecimals :: "real \<Rightarrow> real" where
  "roundDecimals x = of_int \<lfloor>x * 100 + 1 / 2\<rfloor> / 100"

definition exactOps :: "real fops" where
  "exactOps = \<lparr>float64 = of_int, fdiv = (/), fmul = (*), fadd = (+), fsub = (-),
     feqZero = (\<lambda>x. x = 0), Round = roundDecimals\<rparr>"

definition cpuOf :: "uint64 \<Rightarrow> uint64 \<Rightarrow> uint64 \<Rightarrow> CPU" where
  "cpuOf u s i = zeroCPU\<lparr>User := Some u, Sys := Some s, Idle := Some i\<rparr>"

definition cpuWait :: "uint64 \<Rightarrow> uint64 \<Rightarrow> uint64 \<Rightarrow> CPU" where
  "cpuWait u i w = zeroCPU\<lparr>User := Some u, Idle := Some i, Wait := Some w\<rparr>"

definition infoOf :: "string \<Rightarrow> string \<Rightarrow> real \<Rightarrow> int \<Rightarrow> int \<Rightarrow> real CPUInfo" where
  "infoOf name number mhz phys core =
     \<lparr>ModelName = name, ModelNumber = number, Mhz = mhz, PhysicalID = phys, CoreID = core\<rparr>"

definition snapshotOf :: "CPU \<Rightarrow> CPU list \<Rightarrow> real CPUInfo list \<Rightarrow> real CPUMetrics" where
  "snapshotOf t cores infos = \<lparr>totals = t, list = cores, CPUInfo = infos\<rparr>"

definition collected :: "real CPUMetrics \<Rightarrow> real Monitor \<Rightarrow> error + real CPUMetrics" where
  "collected s m = Inr s"

definition monitorOf :: "real CPUMetrics \<Rightarrow> real Monitor" where
  "monitorOf s = \<lparr>lastSample = s\<rparr>"

definition optsOf :: "bool \<Rightarrow> bool \<Rightarrow> bool \<Rightarrow> MetricOpts" where
  "optsOf t p n = \<lparr>Ticks = t, Percentages = p, NormalizedPercentages = n\<rparr>"

definition metricsOf :: "CPU \<Rightarrow> CPU \<Rightarrow> int \<Rightarrow> bool \<Rightarrow> real Metrics" where
  "metricsOf prev cur n tot =
     \<lparr>previousSample = prev, currentSample = cur, count = n,
      cpuInfo = zeroCPUInfo exactOps, isTotals = tot\<rparr>"

section \<open>Properties\<close>

subsection \<open>The output map\<close>

lemma Put_nodot: "IndexRune key (CHR ''.'') < 0 \<Longrightarrow> Put key v data = fmupd key v data"
  by (simp add: Put.simps)

lemma Put_ticks: "Put ''ticks'' v data = fmupd ''ticks'' v data"
  by (simp add: Put_nodot)

lemma Put_pct: "Put ''pct'' v data = fmupd ''pct'' v data"
  by (simp add: Put_nodot)

lemma Put_norm_pct:
  "fmlookup data ''norm.pct'' = None \<Longrightarrow> fmlookup data ''norm'' = None \<Longrightarrow>
   Put ''norm.pct'' v data = fmupd ''norm'' (VMap (fmupd ''pct'' v fmempty)) data"
  by (subst Put.simps) (simp add: Put_pct)

lemma Put_total_pct:
  "Put ''total.pct'' v fmempty = fmupd ''total'' (VMap (fmupd ''pct'' v fmempty)) fmempty"
  by (subst Put.simps) (simp add: Put_pct)

lemma Put_total_norm_pct_empty:
  "Put ''total.norm.pct'' v fmempty =
     fmupd ''total'' (VMap (fmupd ''norm'' (VMap (fmupd ''pct'' v fmempty)) fmempty)) fmempty"
  by (subst Put.simps) (simp add: Put_norm_pct)

lemma Put_total_norm_pct_total:
  "Put ''total.norm.pct'' v (fmupd ''total'' (VMap (fmupd ''pct'' w fmempty)) fmempty) =
     fmupd ''total'' (VMap (fmupd ''norm'' (VMap (fmupd ''pct'' v fmempty))
        (fmupd ''pct'' w fmempty))) fmempty"
  by (subst Put.simps) (simp add: Put_norm_pct)

lemma Put_lookup_other:
  "k \<noteq> key \<Longrightarrow> k \<noteq> take (nat (IndexRune key (CHR ''.''))) key \<Longrightarrow>
   fmlookup (Put key v data) k = fmlookup data k"
  by (subst Put.simps) (simp split: option.splits mval.splits)

subsection \<open>One category\<close>

lemma cpuMetricTimeDelta_ratio:
  "cpuMetricTimeDelta F prev cur td n = Round F (ratio F prev cur td n)"
  by (simp add: cpuMetricTimeDelta_def ratio_def Let_def)

lemma fillMetric_ticks:
  "fmlookup (fillMetric F opts cur prev td n) ''ticks'' =
     (if Ticks opts then Some (VUint (ValueOr cur 0)) else None)"
  by (simp add: fillMetric_def Let_def Put_ticks Put_pct Put_lookup_other)

lemma fillMetric_pct:
  "fmlookup (fillMetric F opts cur prev td n) ''pct'' =
     (if Percentages opts then Some (VFloat (cpuMetricTimeDelta F prev cur td n)) else None)"
  by (simp add: fillMetric_def Let_def Put_ticks Put_pct Put_lookup_other)

lemma fillMetric_norm:
  "fmlookup (fillMetric F opts cur prev td n) ''norm'' =
     (if NormalizedPercentages opts
      then Some (VMap (fmupd ''pct'' (VFloat (cpuMetricTimeDelta F prev cur td 1)) fmempty))
      else None)"
  by (simp add: fillMetric_def Let_def Put_ticks Put_pct Put_norm_pct)

subsection \<open>The stages of Format\<close>

lemma Format_stages:
  "Total (currentSample metric) \<noteq> Total (previousSample metric) \<Longrightarrow>
   Format F metric opts =
     Inr (infoStage F metric (catStage F metric opts (totalStage F metric opts)))"
  unfolding Format_def totalStage_def catStage_def infoStage_def Let_def by simp

lemma Format_stale:
  "Total (currentSample metric) = Total (previousSample metric) \<Longrightarrow>
   Format F metric opts = Inl (New ''previous sample is newer than current sample'')"
  unfolding Format_def Let_def by simp

lemma Format_Inr:
  assumes "Format F metric opts = Inr out"
  shows "Total (currentSample metric) \<noteq> Total (previousSample metric)"
    and "out = infoStage F metric (catStage F metric opts (totalStage F metric opts))"
proof -
  show ne: "Total (currentSample metric) \<noteq> Total (previousSample metric)"
    using assms Format_stale [of metric F opts] by auto
  show "out = infoStage F metric (catStage F metric opts (totalStage F metric opts))"
    using assms Format_stages [OF ne, of F opts] by simp
qed

lemma totalStage_other: "k \<noteq> ''total'' \<Longrightarrow> fmlookup (totalStage F metric opts) k = None"
  by (simp add: totalStage_def Let_def Put_total_pct Put_total_norm_pct_empty
      Put_total_norm_pct_total)

lemma totalStage_total:
  "fmlookup (totalStage F metric opts) ''total'' =
     (let td = Total (currentSample metric) - Total (previousSample metric);
          n = (if \<not> isTotals metric then 1 else count metric);
          a = VFloat (createTotal F (previousSample metric) (currentSample metric) td n);
          b = VFloat (createTotal F (previousSample metric) (currentSample metric) td 1)
      in if Percentages opts then
           (if NormalizedPercentages opts
            then Some (VMap (fmupd ''norm'' (VMap (fmupd ''pct'' b fmempty))
                        (fmupd ''pct'' a fmempty)))
            else Some (VMap (fmupd ''pct'' a fmempty)))
         else
           (if NormalizedPercentages opts
            then Some (VMap (fmupd ''norm'' (VMap (fmupd ''pct'' b fmempty)) fmempty))
            else None))"
  by (simp add: totalStage_def Let_def Put_total_pct Put_total_norm_pct_empty
      Put_total_norm_pct_total)

lemma reportOptMetric_lookup:
  "fmlookup (reportOptMetric F opts td name cur prev n fm) k =
     (if k = name \<and> cur \<noteq> None then Some (VMap (fillMetric F opts cur prev td n))
      else fmlookup fm k)"
  by (auto simp: reportOptMetric_def IsZero_def)

lemma catStage_lookup:
  "fmlookup (catStage F metric opts fm) k =
     (let td = Total (currentSample metric) - Total (previousSample metric);
          n = (if \<not> isTotals metric then 1 else count metric);
          cur = currentSample metric;
          prev = previousSample metric
      in if k = ''steal'' \<and> Stolen cur \<noteq> None
           then Some (VMap (fillMetric F opts (Stolen cur) (Stolen prev) td n))
         else if k = ''softirq'' \<and> SoftIrq cur \<noteq> None
           then Some (VMap (fillMetric F opts (SoftIrq cur) (SoftIrq prev) td n))
         else if k = ''iowait'' \<and> Wait cur \<noteq> None
           then Some (VMap (fillMetric F opts (Wait cur) (Wait prev) td n))
         else if k = ''irq'' \<and> Irq cur \<noteq> None
           then Some (VMap (fillMetric F opts (Irq cur) (Irq prev) td n))
         else if k = ''nice'' \<and> Nice cur \<noteq> None
           then Some (VMap (fillMetric F opts (Nice cur) (Nice prev) td n))
         else if k = ''idle'' \<and> Idle cur \<noteq> None
           then Some (VMap (fillMetric F opts (Idle cur) (Idle prev) td n))
         else if k = ''system'' \<and> Sys cur \<noteq> None
           then Some (VMap (fillMetric F opts (Sys cur) (Sys prev) td n))
         else if k = ''user'' \<and> User cur \<noteq> None
           then Some (VMap (fillMetric F opts (User cur) (User prev) td n))
         else fmlookup fm k)"
  by (simp only: catStage_def Let_def reportOptMetric_lookup)

lemma catStage_cat:
  "fmlookup (catStage F metric opts fm) (catName c) =
     (case catField c (currentSample metric) of
        None \<Rightarrow> fmlookup fm (catName c)
      | Some v \<Rightarrow>
          Some (VMap (fillMetric F opts (Some v) (catField c (previousSample metric))
            (Total (currentSample metric) - Total (previousSample metric))
            (if \<not> isTotals metric then 1 else count metric))))"
proof (cases c)
  case CUser
  then show ?thesis by (simp add: catStage_lookup Let_def split: option.split)
next
  case CSystem
  then show ?thesis by (simp add: catStage_lookup Let_def split: option.split)
next
  case CIdle
  then show ?thesis by (simp add: catStage_lookup Let_def split: option.split)
next
  case CNice
  then show ?thesis by (simp add: catStage_lookup Let_def split: option.split)
next
  case CIrq
  then show ?thesis by (simp add: catStage_lookup Let_def split: option.split)
next
  case CIowait
  then show ?thesis by (simp add: catStage_lookup Let_def split: option.split)
next
  case CSoftirq
  then show ?thesis by (simp add: catStage_lookup Let_def split: option.split)
next
  case CSteal
  then show ?thesis by (simp add: catStage_lookup Let_def split: option.split)
qed

lemma catStage_other:
  assumes "k \<noteq> ''user''" "k \<noteq> ''system''" "k \<noteq> ''idle''" "k \<noteq> ''nice''" "k \<noteq> ''irq''"
    "k \<noteq> ''iowait''" "k \<noteq> ''softirq''" "k \<noteq> ''steal''"
  shows "fmlookup (catStage F metric opts fm) k = fmlookup fm k"
  using assms by (simp add: catStage_lookup Let_def)

lemma infoStage_lookup:
  "fmlookup (infoStage F metric fm) k =
     (if \<not> isTotals metric \<and> neqZeroCPUInfo F (cpuInfo metric) then
        (if k = ''physical_id'' then Some (VInt (PhysicalID (cpuInfo metric)))
         else if k = ''core_id'' then Some (VInt (CoreID (cpuInfo metric)))
         else if k = ''mhz'' then Some (VFloat (Mhz (cpuInfo metric)))
         else if k = ''model_name'' then Some (VString (ModelName (cpuInfo metric)))
         else if k = ''model_number'' then Some (VString (ModelNumber (cpuInfo metric)))
         else fmlookup fm k)
      else fmlookup fm k)"
  by (auto simp: infoStage_def)

lemma infoStage_other:
  assumes "k \<noteq> ''physical_id''" "k \<noteq> ''core_id''" "k \<noteq> ''mhz''" "k \<noteq> ''model_name''"
    "k \<noteq> ''model_number''"
  shows "fmlookup (infoStage F metric fm) k = fmlookup fm k"
  using assms by (simp add: infoStage_lookup)

lemma infoStage_cat:
  "fmlookup (infoStage F metric fm) (catName c) = fmlookup fm (catName c)"
  by (cases c) (simp_all add: infoStage_lookup)

lemma catName_not_total: "catName c \<noteq> ''total''"
  by (cases c) simp_all

lemma Format_cat:
  assumes "Format F metric opts = Inr out"
  shows "fmlookup out (catName c) =
    (case catField c (currentSample metric) of
       None \<Rightarrow> None
     | Some v \<Rightarrow>
         Some (VMap (fillMetric F opts (Some v) (catField c (previousSample metric))
           (Total (currentSample metric) - Total (previousSample metric))
           (if \<not> isTotals metric then 1 else count metric))))"
  unfolding Format_Inr(2) [OF assms]
  by (simp only: infoStage_cat catStage_cat totalStage_other [OF catName_not_total])

lemma Format_total:
  assumes "Format F metric opts = Inr out"
  shows "fmlookup out ''total'' = fmlookup (totalStage F metric opts) ''total''"
  unfolding Format_Inr(2) [OF assms]
  by (simp add: infoStage_other catStage_other)


lemma Format_error_iff:
  "(\<exists>e. Format F metric opts = Inl e) \<longleftrightarrow>
     Total (currentSample metric) = Total (previousSample metric)"
proof (cases "Total (currentSample metric) = Total (previousSample metric)")
  case True
  then show ?thesis using Format_stale [of metric F opts] by simp
next
  case False
  then show ?thesis using Format_stages [of metric F opts] by simp
qed

lemma sint_sub_exact:
  fixes a b :: uint64
  assumes "- (2 ^ 63) \<le> uint a - uint b" "uint a - uint b < 2 ^ 63"
  shows "sint (a - b) = uint a - uint b"
proof -
  have "sint (a - b) = signed_take_bit 63 (uint a - uint b)"
    by (simp add: sint_uint uint_word_ariths signed_take_bit_eq_iff_take_bit_eq take_bit_eq_mod)
  also have "\<dots> = uint a - uint b"
    using assms by (simp add: signed_take_bit_int_eq_self)
  finally show ?thesis .
qed

subsection \<open>Claims about Format\<close>

lemma total_eval:
  "Total (cpuOf u s i) = u + s + i"
  by (simp add: Total_def SumOptUint_def ValueOr_def cpuOf_def zeroCPU_def)

text \<open>
  C1.  The claim: \<open>Format\<close> fails with the stale-sample error exactly when the
  summed ticks of the current sample are equal to or lower than those of the previous
  sample.  The window delta is an unsigned 64-bit difference, so a lower current total
  wraps around to a large positive delta and the test \<open>timeDelta <= 0\<close> never sees
  it: after a counter reset from \<open>{user:110, system:55, idle:830}\<close> to
  \<open>{user:10, system:5, idle:30}\<close> \<open>Format\<close> returns a map.
\<close>

theorem C1_lower_total_is_rendered:
  "Total (cpuOf 10 5 30) < Total (cpuOf 110 55 830) \<and>
   (\<exists>out. Format exactOps (metricsOf (cpuOf 110 55 830) (cpuOf 10 5 30) 1 True)
             (optsOf True False False) = Inr out \<and>
          lookupPath [''user'', ''ticks''] (VMap out) = Some (VUint 10))"
proof -
  let ?m = "metricsOf (cpuOf 110 55 830) (cpuOf 10 5 30) 1 True"
  let ?o = "optsOf True False False"
  have ne: "Total (currentSample ?m) \<noteq> Total (previousSample ?m)"
    by (simp add: metricsOf_def total_eval)
  have f: "Format exactOps ?m ?o =
      Inr (infoStage exactOps ?m (catStage exactOps ?m ?o (totalStage exactOps ?m ?o)))"
    by (rule Format_stages [OF ne])
  have "fmlookup (infoStage exactOps ?m (catStage exactOps ?m ?o (totalStage exactOps ?m ?o)))
      (catName CUser) =
      Some (VMap (fillMetric exactOps ?o (Some 10) (Some 110)
        (Total (currentSample ?m) - Total (previousSample ?m)) 1))"
    using Format_cat [OF f, of CUser] by (simp add: metricsOf_def cpuOf_def zeroCPU_def)
  then have "lookupPath [''user'', ''ticks'']
      (VMap (infoStage exactOps ?m (catStage exactOps ?m ?o (totalStage exactOps ?m ?o)))) =
      Some (VUint 10)"
    by (simp add: fillMetric_ticks optsOf_def ValueOr_def)
  moreover have "Total (cpuOf 10 5 30) < Total (cpuOf 110 55 830)"
    by (simp add: total_eval)
  ultimately show ?thesis using f by blast
qed

text \<open>
  C2.  For a category \<open>c\<close> present in the current sample with value \<open>v\<close>, the
  output of \<open>Format\<close> holds under \<open>c.pct\<close> (when \<open>Percentages\<close> is set) the
  value \<open>Round (delta / timeDelta * n)\<close> and under \<open>c.norm.pct\<close> (when
  \<open>NormalizedPercentages\<close> is set) the value \<open>Round (delta / timeDelta * 1)\<close>.
  Here \<open>delta\<close> is the difference of \<open>v\<close> and the previous value (0 when absent)
  read as a signed 64-bit integer, \<open>timeDelta\<close> is the window delta, and \<open>n\<close> is
  the count of the aggregate view and 1 of a per-core view.  No clamping takes place.
\<close>

theorem C2_category_percentages:
  assumes "Format F metric opts = Inr out"
    and "catField c (currentSample metric) = Some v"
  shows "(Percentages opts \<longrightarrow>
            lookupPath [catName c, ''pct''] (VMap out) =
              Some (VFloat (Round F (fmul F
                (fdiv F
                  (float64 F (sint (v - ValueOr (catField c (previousSample metric)) 0)))
                  (float64 F (uint (Total (currentSample metric)
                                     - Total (previousSample metric)))))
                (float64 F (if isTotals metric then count metric else 1)))))) \<and>
         (NormalizedPercentages opts \<longrightarrow>
            lookupPath [catName c, ''norm'', ''pct''] (VMap out) =
              Some (VFloat (Round F (fmul F
                (fdiv F
                  (float64 F (sint (v - ValueOr (catField c (previousSample metric)) 0)))
                  (float64 F (uint (Total (currentSample metric)
                                     - Total (previousSample metric)))))
                (float64 F 1)))))"
proof -
  have "fmlookup out (catName c) =
      Some (VMap (fillMetric F opts (Some v) (catField c (previousSample metric))
        (Total (currentSample metric) - Total (previousSample metric))
        (if \<not> isTotals metric then 1 else count metric)))"
    using Format_cat [OF assms(1), of c] assms(2) by simp
  then show ?thesis
    by (simp add: fillMetric_pct fillMetric_norm cpuMetricTimeDelta_def Let_def ValueOr_def)
qed

theorem C2_category_percentages_witness:
  "\<exists>out. Format exactOps (metricsOf (cpuOf 10 0 100) (cpuOf 5 0 200) 1 True)
            (optsOf False True True) = Inr out \<and>
         lookupPath [''user'', ''pct''] (VMap out) = Some (VFloat (- (1 / 20))) \<and>
         lookupPath [''user'', ''norm'', ''pct''] (VMap out) = Some (VFloat (- (1 / 20)))"
proof -
  let ?m = "metricsOf (cpuOf 10 0 100) (cpuOf 5 0 200) 1 True"
  let ?o = "optsOf False True True"
  have ne: "Total (currentSample ?m) \<noteq> Total (previousSample ?m)"
    by (simp add: metricsOf_def total_eval)
  have f: "Format exactOps ?m ?o =
      Inr (infoStage exactOps ?m (catStage exactOps ?m ?o (totalStage exactOps ?m ?o)))"
    by (rule Format_stages [OF ne])
  have c: "catField CUser (currentSample ?m) = Some 5"
    by (simp add: metricsOf_def cpuOf_def zeroCPU_def)
  have p: "catField CUser (previousSample ?m) = Some 10"
    by (simp add: metricsOf_def cpuOf_def zeroCPU_def)
  have t: "Total (currentSample ?m) - Total (previousSample ?m) = 95"
    by (simp add: metricsOf_def total_eval)
  have o: "Percentages ?o" "NormalizedPercentages ?o"
    by (simp_all add: optsOf_def)
  have i: "isTotals ?m" "count ?m = 1"
    by (simp_all add: metricsOf_def)
  have r: "roundDecimals (- (1 / 19)) = - (1 / 20)"
    by (simp add: roundDecimals_def)
  show ?thesis
    using C2_category_percentages [OF f c] f r
    unfolding p t
    by (simp add: o i exactOps_def ValueOr_def)
qed


text \<open>
  C3.  When the current total exceeds the previous one, \<open>Format\<close> succeeds, and
  \<open>total.pct\<close> (under \<open>Percentages\<close>) is \<open>Round (n - idlePortion)\<close>.  The
  idle portion is \<open>pct idle + pct iowait\<close>, where \<open>pct c\<close> is
  \<open>Round (delta c / timeDelta * n)\<close> with the signed 64-bit delta of the category,
  and the iowait term is left out when iowait is absent from the current sample;
  \<open>n\<close> is the count of an aggregate view and 1 of a per-core view.
  \<open>total.norm.pct\<close> (under \<open>NormalizedPercentages\<close>) is the same with \<open>n = 1\<close>.
\<close>

theorem C3_total_percentage:
  assumes "Total (previousSample metric) < Total (currentSample metric)"
  shows "\<exists>out. Format F metric opts = Inr out \<and>
     (let prev = previousSample metric;
          cur = currentSample metric;
          td = float64 F (uint (Total cur - Total prev));
          n = (if isTotals metric then count metric else 1);
          pct = (\<lambda>p c k.
            Round F (fmul F
              (fdiv F (float64 F (sint (ValueOr c 0 - ValueOr p 0))) td)
              (float64 F k)));
          idle = (\<lambda>k.
            if Wait cur = None then pct (Idle prev) (Idle cur) k
            else fadd F (pct (Idle prev) (Idle cur) k) (pct (Wait prev) (Wait cur) k))
      in (Percentages opts \<longrightarrow>
            lookupPath [''total'', ''pct''] (VMap out) =
              Some (VFloat (Round F (fsub F (float64 F n) (idle n))))) \<and>
         (NormalizedPercentages opts \<longrightarrow>
            lookupPath [''total'', ''norm'', ''pct''] (VMap out) =
              Some (VFloat (Round F (fsub F (float64 F 1) (idle 1))))))"
proof -
  have ne: "Total (currentSample metric) \<noteq> Total (previousSample metric)"
    using assms by auto
  have f: "Format F metric opts =
      Inr (infoStage F metric (catStage F metric opts (totalStage F metric opts)))"
    by (rule Format_stages [OF ne])
  show ?thesis
    using Format_total [OF f] f
    by (simp add: totalStage_total Let_def createTotal_def cpuMetricTimeDelta_def IsZero_def)
qed

theorem C3_total_percentage_witness:
  "(\<exists>out. Format exactOps (metricsOf (cpuOf 100 50 800) (cpuOf 110 55 830) 4 True)
            (optsOf False True True) = Inr out \<and>
         lookupPath [''total'', ''pct''] (VMap out) = Some (VFloat (133 / 100)) \<and>
         lookupPath [''total'', ''norm'', ''pct''] (VMap out) = Some (VFloat (33 / 100))) \<and>
   (\<exists>out. Format exactOps (metricsOf (cpuWait 0 0 0) (cpuWait 1 1 1) 4 True)
            (optsOf False True True) = Inr out \<and>
         lookupPath [''total'', ''pct''] (VMap out) = Some (VFloat (67 / 50)) \<and>
         lookupPath [''total'', ''norm'', ''pct''] (VMap out) = Some (VFloat (17 / 50)))"
proof -
  let ?m = "metricsOf (cpuOf 100 50 800) (cpuOf 110 55 830) 4 True"
  let ?w = "metricsOf (cpuWait 0 0 0) (cpuWait 1 1 1) 4 True"
  let ?o = "optsOf False True True"
  have o: "Percentages ?o" "NormalizedPercentages ?o"
    by (simp_all add: optsOf_def)
  have lt: "Total (previousSample ?m) < Total (currentSample ?m)"
    by (simp add: metricsOf_def total_eval)
  have t: "Total (currentSample ?m) - Total (previousSample ?m) = 45"
    by (simp add: metricsOf_def total_eval)
  have ltw: "Total (previousSample ?w) < Total (currentSample ?w)"
    by (simp add: metricsOf_def Total_def SumOptUint_def ValueOr_def cpuWait_def zeroCPU_def)
  have tw: "Total (currentSample ?w) - Total (previousSample ?w) = 3"
    by (simp add: metricsOf_def Total_def SumOptUint_def ValueOr_def cpuWait_def zeroCPU_def)
  have a: "\<exists>out. Format exactOps ?m ?o = Inr out \<and>
         lookupPath [''total'', ''pct''] (VMap out) = Some (VFloat (133 / 100)) \<and>
         lookupPath [''total'', ''norm'', ''pct''] (VMap out) = Some (VFloat (33 / 100))"
    using C3_total_percentage [OF lt, of exactOps ?o, unfolded Let_def t]
    by (simp add: o metricsOf_def cpuOf_def zeroCPU_def ValueOr_def exactOps_def
        roundDecimals_def)
  have b: "\<exists>out. Format exactOps ?w ?o = Inr out \<and>
         lookupPath [''total'', ''pct''] (VMap out) = Some (VFloat (67 / 50)) \<and>
         lookupPath [''total'', ''norm'', ''pct''] (VMap out) = Some (VFloat (17 / 50))"
    using C3_total_percentage [OF ltw, of exactOps ?o, unfolded Let_def tw]
    by (simp add: o metricsOf_def cpuWait_def zeroCPU_def ValueOr_def exactOps_def
        roundDecimals_def)
  show ?thesis using a b by (rule conjI)
qed

text \<open>
  C7.  The claim: rounding happens once per emitted value and never before values are
  combined, so the total comes from unrounded ratios.  In the code \<open>createTotal\<close>
  adds the results of \<open>cpuMetricTimeDelta\<close>, which are rounded already, and rounds
  the difference again.  With idle, iowait and user each one tick of a window of
  three, the code yields 0.34 where a single rounding yields 0.33.
\<close>

theorem C7_rounds_twice_counterexample:
  "createTotal exactOps (cpuWait 0 0 0) (cpuWait 1 1 1)
     (Total (cpuWait 1 1 1) - Total (cpuWait 0 0 0)) 1 = 34 / 100 \<and>
   totalRoundedOnce exactOps (cpuWait 0 0 0) (cpuWait 1 1 1)
     (Total (cpuWait 1 1 1) - Total (cpuWait 0 0 0)) 1 = 33 / 100"
proof -
  have t: "Total (cpuWait 1 1 1) - Total (cpuWait 0 0 0) = 3"
    by (simp add: Total_def SumOptUint_def ValueOr_def cpuWait_def zeroCPU_def)
  have r: "roundDecimals (1 / 3) = 33 / 100" "roundDecimals (17 / 50) = 17 / 50"
    by (simp_all add: roundDecimals_def)
  have a: "createTotal exactOps (cpuWait 0 0 0) (cpuWait 1 1 1) 3 1 = 34 / 100"
    by (simp add: createTotal_def cpuMetricTimeDelta_def Let_def IsZero_def cpuWait_def
        zeroCPU_def ValueOr_def exactOps_def r)
  have b: "totalRoundedOnce exactOps (cpuWait 0 0 0) (cpuWait 1 1 1) 3 1 = 33 / 100"
    by (simp add: totalRoundedOnce_def ratio_def cpuWait_def zeroCPU_def ValueOr_def
        exactOps_def r)
  show ?thesis unfolding t using a b by simp
qed

text \<open>
  C7, amended.  Every per-category percentage is its ratio rounded once; the total is
  rounded at emission as well, but it is computed from the rounded percentages of idle
  and iowait: \<open>Round (n - (Round idle + Round iowait))\<close>, without the iowait term
  when that counter is absent.
\<close>

theorem C7_total_from_rounded:
  "cpuMetricTimeDelta F p c td n = Round F (ratio F p c td n) \<and>
   createTotal F prev cur td n =
     Round F (fsub F (float64 F n)
       (if Wait cur = None then Round F (ratio F (Idle prev) (Idle cur) td n)
        else fadd F (Round F (ratio F (Idle prev) (Idle cur) td n))
               (Round F (ratio F (Wait prev) (Wait cur) td n))))"
  by (simp add: createTotal_def cpuMetricTimeDelta_ratio Let_def IsZero_def)

theorem C7_total_from_rounded_witness:
  "createTotal exactOps (cpuWait 0 0 0) (cpuWait 1 1 1) 3 1 =
     roundDecimals (1 - (roundDecimals (1 / 3) + roundDecimals (1 / 3)))"
proof -
  have w: "Wait (cpuWait 1 1 1) \<noteq> None"
    by (simp add: cpuWait_def)
  have r: "ratio exactOps (Idle (cpuWait 0 0 0)) (Idle (cpuWait 1 1 1)) 3 1 = 1 / 3"
    "ratio exactOps (Wait (cpuWait 0 0 0)) (Wait (cpuWait 1 1 1)) 3 1 = 1 / 3"
    by (simp_all add: ratio_def cpuWait_def zeroCPU_def ValueOr_def exactOps_def)
  show ?thesis
    using C7_total_from_rounded [of exactOps None None 3 1 "cpuWait 0 0 0" "cpuWait 1 1 1"]
    by (simp add: w r) (simp add: exactOps_def)
qed

text \<open>
  C8.  A category whose counter is absent from the current sample has no key in the
  output of \<open>Format\<close>, whatever the three flags are.
\<close>

theorem C8_absent_category_omitted:
  assumes "Format F metric opts = Inr out"
    and "catField c (currentSample metric) = None"
  shows "fmlookup out (catName c) = None"
  using Format_cat [OF assms(1), of c] assms(2) by simp

theorem C8_absent_category_omitted_witness:
  "\<exists>out. Format exactOps (metricsOf (cpuOf 100 50 800) (cpuOf 110 55 830) 1 True)
            (optsOf True True True) = Inr out \<and>
         fmlookup out ''iowait'' = None"
proof -
  let ?m = "metricsOf (cpuOf 100 50 800) (cpuOf 110 55 830) 1 True"
  let ?o = "optsOf True True True"
  have ne: "Total (currentSample ?m) \<noteq> Total (previousSample ?m)"
    by (simp add: metricsOf_def total_eval)
  have f: "Format exactOps ?m ?o =
      Inr (infoStage exactOps ?m (catStage exactOps ?m ?o (totalStage exactOps ?m ?o)))"
    by (rule Format_stages [OF ne])
  have c: "catField CIowait (currentSample ?m) = None"
    by (simp add: metricsOf_def cpuOf_def zeroCPU_def)
  show ?thesis
    using C8_absent_category_omitted [OF f c] f by simp
qed

text \<open>
  C9.  When \<open>Format\<close> succeeds, the five CPU-information keys are present, with the
  fields of the \<open>CPUInfo\<close> as their values, if the view is per-core and the
  \<open>CPUInfo\<close> differs from the zero value; otherwise none of the five keys is
  present.
\<close>

theorem C9_cpu_info_fields:
  assumes "Format F metric opts = Inr out"
  shows "if \<not> isTotals metric \<and> neqZeroCPUInfo F (cpuInfo metric)
         then fmlookup out ''model_number'' = Some (VString (ModelNumber (cpuInfo metric))) \<and>
              fmlookup out ''model_name'' = Some (VString (ModelName (cpuInfo metric))) \<and>
              fmlookup out ''mhz'' = Some (VFloat (Mhz (cpuInfo metric))) \<and>
              fmlookup out ''core_id'' = Some (VInt (CoreID (cpuInfo metric))) \<and>
              fmlookup out ''physical_id'' = Some (VInt (PhysicalID (cpuInfo metric)))
         else fmlookup out ''model_number'' = None \<and>
              fmlookup out ''model_name'' = None \<and>
              fmlookup out ''mhz'' = None \<and>
              fmlookup out ''core_id'' = None \<and>
              fmlookup out ''physical_id'' = None"
  unfolding Format_Inr(2) [OF assms]
  by (simp add: infoStage_lookup catStage_other totalStage_other)

theorem C9_cpu_info_fields_witness:
  "(\<exists>out. Format exactOps
             ((metricsOf (cpuOf 100 50 800) (cpuOf 110 55 830) 0 False)
                \<lparr>cpuInfo := infoOf ''Xeon'' ''85'' 2400 0 3\<rparr>)
             (optsOf True False False) = Inr out \<and>
          fmlookup out ''model_name'' = Some (VString ''Xeon'') \<and>
          fmlookup out ''core_id'' = Some (VInt 3)) \<and>
   (\<exists>out. Format exactOps (metricsOf (cpuOf 100 50 800) (cpuOf 110 55 830) 0 False)
             (optsOf True False False) = Inr out \<and>
          fmlookup out ''model_name'' = None \<and>
          fmlookup out ''core_id'' = None)"
proof -
  let ?b = "metricsOf (cpuOf 100 50 800) (cpuOf 110 55 830) 0 False"
  let ?m = "?b\<lparr>cpuInfo := infoOf ''Xeon'' ''85'' 2400 0 3\<rparr>"
  let ?o = "optsOf True False False"
  have ne: "Total (currentSample ?m) \<noteq> Total (previousSample ?m)"
    by (simp add: metricsOf_def total_eval)
  have f: "Format exactOps ?m ?o =
      Inr (infoStage exactOps ?m (catStage exactOps ?m ?o (totalStage exactOps ?m ?o)))"
    by (rule Format_stages [OF ne])
  have n: "\<not> isTotals ?m \<and> neqZeroCPUInfo exactOps (cpuInfo ?m)"
    by (simp add: metricsOf_def neqZeroCPUInfo_def infoOf_def exactOps_def)
  have ne0: "Total (currentSample ?b) \<noteq> Total (previousSample ?b)"
    by (simp add: metricsOf_def total_eval)
  have f0: "Format exactOps ?b ?o =
      Inr (infoStage exactOps ?b (catStage exactOps ?b ?o (totalStage exactOps ?b ?o)))"
    by (rule Format_stages [OF ne0])
  have n0: "\<not> (\<not> isTotals ?b \<and> neqZeroCPUInfo exactOps (cpuInfo ?b))"
    by (simp add: metricsOf_def neqZeroCPUInfo_def zeroCPUInfo_def exactOps_def)
  have a: "fmlookup (infoStage exactOps ?m (catStage exactOps ?m ?o (totalStage exactOps ?m ?o)))
        ''model_name'' = Some (VString ''Xeon'') \<and>
      fmlookup (infoStage exactOps ?m (catStage exactOps ?m ?o (totalStage exactOps ?m ?o)))
        ''core_id'' = Some (VInt 3)"
    using C9_cpu_info_fields [OF f] n by (simp add: infoOf_def)
  have b: "fmlookup (infoStage exactOps ?b (catStage exactOps ?b ?o (totalStage exactOps ?b ?o)))
        ''model_name'' = None \<and>
      fmlookup (infoStage exactOps ?b (catStage exactOps ?b ?o (totalStage exactOps ?b ?o)))
        ''core_id'' = None"
    using C9_cpu_info_fields [OF f0] n0 by simp
  show ?thesis using a b f f0 by blast
qed


subsection \<open>The loop of FetchCores\<close>

lemma take_Suc_update:
  "i < length xs \<Longrightarrow> take (Suc i) (xs[i := e]) = take i xs @ [e]"
  by (simp add: take_Suc_conv_app_nth)

lemma coresLoop_eq:
  assumes "length cms = length (list metric)" "i \<le> length (list metric)"
  shows "coresLoop F metric lastS i cms =
     (if CPUInfo metric \<noteq> [] \<and> max i (length (CPUInfo metric)) < length (list metric)
      then Inl (IndexOutOfRange (max i (length (CPUInfo metric))) (length (CPUInfo metric)))
      else Inr (take i cms @ map (coreEntry F metric lastS) [i..<length (list metric)]))"
  using assms
proof (induction F metric lastS i cms rule: coresLoop.induct)
  case (1 F metric lastS i coreMetrics)
  show ?case
  proof (cases "i < length (list metric)")
    case False
    with "1.prems" show ?thesis
      by (subst coresLoop.simps) (simp add: max_def)
  next
    case True
    let ?e = "coreEntry F metric lastS i"
    have up: "[i..<length (list metric)] = i # [Suc i..<length (list metric)]"
      using True by (simp add: upt_conv_Cons)
    show ?thesis
    proof (cases "length (CPUInfo metric) \<noteq> 0")
      case False
      have step: "coresLoop F metric lastS i coreMetrics =
          coresLoop F metric lastS (i + 1) (coreMetrics[i := ?e])"
        using True False by (subst coresLoop.simps) (simp add: Let_def coreEntry_def)
      have "coresLoop F metric lastS (i + 1) (coreMetrics[i := ?e]) =
          Inr (take (i + 1) (coreMetrics[i := ?e]) @
               map (coreEntry F metric lastS) [i + 1..<length (list metric)])"
        using "1.IH"(2) True False "1.prems" by (simp add: coreEntry_def)
      then show ?thesis
        using step True False "1.prems" by (simp add: up take_Suc_update)
    next
      case info: True
      show ?thesis
      proof (cases "i < length (CPUInfo metric)")
        case False
        then show ?thesis
          using True info by (subst coresLoop.simps) (simp add: Let_def max_def)
      next
        case inb: True
        have step: "coresLoop F metric lastS i coreMetrics =
            coresLoop F metric lastS (i + 1) (coreMetrics[i := ?e])"
          using True info inb "1.prems"
          by (subst coresLoop.simps) (simp add: Let_def coreEntry_def)
        have "coresLoop F metric lastS (i + 1) (coreMetrics[i := ?e]) =
            (if max (i + 1) (length (CPUInfo metric)) < length (list metric)
             then Inl (IndexOutOfRange (max (i + 1) (length (CPUInfo metric)))
                    (length (CPUInfo metric)))
             else Inr (take (i + 1) (coreMetrics[i := ?e]) @
               map (coreEntry F metric lastS) [i + 1..<length (list metric)]))"
          using "1.IH"(1) True info inb "1.prems" by (simp add: coreEntry_def)
        moreover have "max (i + 1) (length (CPUInfo metric)) = max i (length (CPUInfo metric))"
          using inb by simp
        ultimately show ?thesis
          using step True info "1.prems" by (simp add: up take_Suc_update)
      qed
    qed
  qed
qed


lemma FetchCores_returns:
  assumes "Get m = Inr metric"
    and "CPUInfo metric = [] \<or> length (list metric) \<le> length (CPUInfo metric)"
  shows "FetchCores Get F m =
     (Inr (map (coreEntry F metric (lastSample m)) [0..<length (list metric)]),
      m\<lparr>lastSample := metric\<rparr>)"
proof -
  have "coresLoop F metric (lastSample m) 0 (replicate (length (list metric)) (zeroMetrics F)) =
      Inr (map (coreEntry F metric (lastSample m)) [0..<length (list metric)])"
    using assms(2) by (subst coresLoop_eq) (auto simp: max_def)
  then show ?thesis
    using assms(1) by (simp add: FetchCores_def)
qed

lemma FetchCores_panics:
  assumes "Get m = Inr metric"
    and "CPUInfo metric \<noteq> []" "length (CPUInfo metric) < length (list metric)"
  shows "FetchCores Get F m =
     (Inl (IndexOutOfRange (length (CPUInfo metric)) (length (CPUInfo metric))), m)"
proof -
  have "coresLoop F metric (lastSample m) 0 (replicate (length (list metric)) (zeroMetrics F)) =
      Inl (IndexOutOfRange (length (CPUInfo metric)) (length (CPUInfo metric)))"
    using assms(2,3) by (subst coresLoop_eq) auto
  then show ?thesis
    using assms(1) by (simp add: FetchCores_def)
qed

subsection \<open>Claims about the monitor\<close>

text \<open>
  C4.  When the collector succeeds, \<open>Fetch\<close> stores the new snapshot as
  \<open>lastSample\<close> and returns a \<open>Metrics\<close> whose previous sample is the totals of
  the old \<open>lastSample\<close>, whose current sample is the new totals, whose count is the
  length of the new per-core list, and whose \<open>isTotals\<close> is true.
\<close>

theorem C4_Fetch_success:
  assumes "Get m = Inr metric"
  shows "\<exists>r. Fetch Get F m = (Inr r, m\<lparr>lastSample := metric\<rparr>) \<and>
           lastSample (snd (Fetch Get F m)) = metric \<and>
           previousSample r = totals (lastSample m) \<and>
           currentSample r = totals metric \<and>
           count r = int (length (list metric)) \<and>
           isTotals r"
  using assms by (simp add: Fetch_def Let_def)

theorem C4_Fetch_success_witness:
  "\<exists>r. Fetch (\<lambda>m. Inr (snapshotOf (cpuOf 110 55 830) [cpuOf 60 30 400, cpuOf 50 25 430] []))
          exactOps (monitorOf (snapshotOf (cpuOf 100 50 800) [cpuOf 100 50 800] [])) =
          (Inr r, monitorOf (snapshotOf (cpuOf 110 55 830) [cpuOf 60 30 400, cpuOf 50 25 430] []))
        \<and> previousSample r = cpuOf 100 50 800
        \<and> currentSample r = cpuOf 110 55 830
        \<and> count r = 2
        \<and> isTotals r"
  using C4_Fetch_success [of "\<lambda>m. Inr (snapshotOf (cpuOf 110 55 830)
      [cpuOf 60 30 400, cpuOf 50 25 430] [])"
      "monitorOf (snapshotOf (cpuOf 100 50 800) [cpuOf 100 50 800] [])"
      "snapshotOf (cpuOf 110 55 830) [cpuOf 60 30 400, cpuOf 50 25 430] []" exactOps]
  by (auto simp: monitorOf_def snapshotOf_def)

text \<open>
  C5.  The claim: for every index of the new per-core list \<open>FetchCores\<close> returns
  the pairing of the new core with the stored one, without error, and replaces the
  stored snapshot.  The loop indexes \<open>metric.CPUInfo[i]\<close> whenever that list is
  not empty, with no check of its length.  With two cores and one information record
  (the stored snapshot has one core, so the count grew) the index faults at
  \<open>i = 1\<close>: nothing is returned and the stored snapshot stays as it was.
\<close>

theorem C5_short_info_counterexample:
  "FetchCores
     (collected (snapshotOf (cpuOf 110 55 830) [cpuOf 60 30 400, cpuOf 50 25 430]
        [infoOf ''Xeon'' ''85'' 2400 0 0]))
     exactOps
     (monitorOf (snapshotOf (cpuOf 100 50 800) [cpuOf 100 50 800]
        [infoOf ''Xeon'' ''85'' 2400 0 0])) =
   (Inl (IndexOutOfRange 1 1),
    monitorOf (snapshotOf (cpuOf 100 50 800) [cpuOf 100 50 800]
      [infoOf ''Xeon'' ''85'' 2400 0 0]))"
  using FetchCores_panics [of
      "collected (snapshotOf (cpuOf 110 55 830) [cpuOf 60 30 400, cpuOf 50 25 430]
        [infoOf ''Xeon'' ''85'' 2400 0 0])"
      "monitorOf (snapshotOf (cpuOf 100 50 800) [cpuOf 100 50 800]
        [infoOf ''Xeon'' ''85'' 2400 0 0])"
      "snapshotOf (cpuOf 110 55 830) [cpuOf 60 30 400, cpuOf 50 25 430]
        [infoOf ''Xeon'' ''85'' 2400 0 0]"
      exactOps]
  by (simp add: collected_def snapshotOf_def)

text \<open>
  C5, amended.  When the collector succeeds with a snapshot whose \<open>CPUInfo\<close> list
  is empty or at least as long as its per-core list, \<open>FetchCores\<close> returns one
  \<open>Metrics\<close> for each index \<open>i\<close> of the new per-core list, in index order: its
  current sample is the new core \<open>i\<close>, its previous sample is core \<open>i\<close> of the
  stored snapshot when that has more than \<open>i\<close> cores and the all-absent sample
  otherwise, and it is a per-core view.  The stored snapshot, from which the previous
  samples were read, is replaced by the new one.
\<close>

theorem C5_FetchCores_pairs:
  assumes "Get m = Inr metric"
    and "CPUInfo metric = [] \<or> length (list metric) \<le> length (CPUInfo metric)"
  shows "\<exists>ms. FetchCores Get F m = (Inr ms, m\<lparr>lastSample := metric\<rparr>) \<and>
           length ms = length (list metric) \<and>
           (\<forall>i<length (list metric).
              currentSample (ms ! i) = list metric ! i \<and>
              previousSample (ms ! i) =
                (if i < length (list (lastSample m)) then list (lastSample m) ! i
                 else zeroCPU) \<and>
              \<not> isTotals (ms ! i))"
  unfolding FetchCores_returns [of Get m metric F, OF assms]
  by (simp add: coreEntry_def)

theorem C5_FetchCores_pairs_witness:
  "\<exists>ms. FetchCores
           (\<lambda>m. Inr (snapshotOf (cpuOf 110 55 830) [cpuOf 60 30 400, cpuOf 50 25 430] []))
           exactOps (monitorOf (snapshotOf (cpuOf 100 50 800) [cpuOf 100 50 800] [])) =
          (Inr ms,
           monitorOf (snapshotOf (cpuOf 110 55 830) [cpuOf 60 30 400, cpuOf 50 25 430] []))
        \<and> length ms = 2
        \<and> currentSample (ms ! 0) = cpuOf 60 30 400
        \<and> previousSample (ms ! 0) = cpuOf 100 50 800
        \<and> currentSample (ms ! 1) = cpuOf 50 25 430
        \<and> previousSample (ms ! 1) = zeroCPU"
proof -
  let ?new = "snapshotOf (cpuOf 110 55 830) [cpuOf 60 30 400, cpuOf 50 25 430] []"
  let ?old = "snapshotOf (cpuOf 100 50 800) [cpuOf 100 50 800] []"
  have inv: "CPUInfo ?new = [] \<or> length (list ?new) \<le> length (CPUInfo ?new)"
    by (simp add: snapshotOf_def)
  obtain ms where ms: "FetchCores (\<lambda>m. Inr ?new) exactOps (monitorOf ?old) =
        (Inr ms, (monitorOf ?old)\<lparr>lastSample := ?new\<rparr>)"
      "length ms = length (list ?new)"
      "\<forall>i<length (list ?new).
         currentSample (ms ! i) = list ?new ! i \<and>
         previousSample (ms ! i) =
           (if i < length (list (lastSample (monitorOf ?old)))
            then list (lastSample (monitorOf ?old)) ! i else zeroCPU) \<and>
         \<not> isTotals (ms ! i)"
    using C5_FetchCores_pairs [of "\<lambda>m. Inr ?new" "monitorOf ?old" ?new exactOps, OF refl inv]
    by blast
  have l: "list ?new = [cpuOf 60 30 400, cpuOf 50 25 430]"
      "list (lastSample (monitorOf ?old)) = [cpuOf 100 50 800]"
    by (simp_all add: snapshotOf_def monitorOf_def)
  have "currentSample (ms ! 0) = cpuOf 60 30 400 \<and> previousSample (ms ! 0) = cpuOf 100 50 800"
    using ms(3) [rule_format, of 0] by (simp add: l)
  moreover have "currentSample (ms ! 1) = cpuOf 50 25 430 \<and> previousSample (ms ! 1) = zeroCPU"
    using ms(3) [rule_format, of 1] by (simp add: l)
  moreover have "length ms = 2"
    using ms(2) by (simp add: l)
  moreover have "(monitorOf ?old)\<lparr>lastSample := ?new\<rparr> = monitorOf ?new"
    by (simp add: monitorOf_def)
  ultimately show ?thesis using ms(1) by auto
qed

text \<open>
  C6.  When the collector fails, \<open>Fetch\<close> and \<open>FetchCores\<close> both return an error
  that wraps the collector's error, and the monitor they leave behind is the monitor
  they were given: \<open>lastSample\<close> is untouched.
\<close>

theorem C6_collector_failure:
  assumes "Get m = Inl err"
  shows "Fetch Get F m = (Inl (Errorf ''error fetching CPU metrics: '' err), m) \<and>
         FetchCores Get F m = (Inl (Error (Errorf ''error fetching CPU metrics: '' err)), m)"
  using assms by (simp add: Fetch_def FetchCores_def)

theorem C6_collector_failure_witness:
  "Fetch (\<lambda>m. Inl (New ''open /proc/stat: permission denied'')) exactOps
     (monitorOf (snapshotOf (cpuOf 100 50 800) [cpuOf 100 50 800] [])) =
     (Inl (Errorf ''error fetching CPU metrics: ''
            (New ''open /proc/stat: permission denied'')),
      monitorOf (snapshotOf (cpuOf 100 50 800) [cpuOf 100 50 800] [])) \<and>
   FetchCores (\<lambda>m. Inl (New ''open /proc/stat: permission denied'')) exactOps
     (monitorOf (snapshotOf (cpuOf 100 50 800) [cpuOf 100 50 800] [])) =
     (Inl (Error (Errorf ''error fetching CPU metrics: ''
            (New ''open /proc/stat: permission denied''))),
      monitorOf (snapshotOf (cpuOf 100 50 800) [cpuOf 100 50 800] []))"
  using C6_collector_failure [of "\<lambda>m. Inl (New ''open /proc/stat: permission denied'')"
      "monitorOf (snapshotOf (cpuOf 100 50 800) [cpuOf 100 50 800] [])"
      "New ''open /proc/stat: permission denied''" exactOps]
  by simp

text \<open>
  C10.  When the \<open>CPUInfo\<close> list of the collected snapshot is empty or at least as
  long as the per-core list, \<open>FetchCores\<close> does not end in an index fault: it
  returns one entry per core, and the \<open>cpuInfo\<close> of entry \<open>i\<close> is
  \<open>CPUInfo[i]\<close> when the list is non-empty and the zero value when it is empty.
\<close>

theorem C10_cpu_info_in_bounds:
  assumes "Get m = Inr metric"
    and "CPUInfo metric = [] \<or> length (list metric) \<le> length (CPUInfo metric)"
  shows "\<exists>ms m'. FetchCores Get F m = (Inr ms, m') \<and>
           length ms = length (list metric) \<and>
           (\<forall>i<length (list metric).
              cpuInfo (ms ! i) =
                (if CPUInfo metric = [] then zeroCPUInfo F else CPUInfo metric ! i))"
  unfolding FetchCores_returns [of Get m metric F, OF assms]
  by (simp add: coreEntry_def)

theorem C10_cpu_info_in_bounds_witness:
  "\<exists>ms m'. FetchCores
           (\<lambda>m. Inr (snapshotOf (cpuOf 110 55 830) [cpuOf 60 30 400, cpuOf 50 25 430]
                  [infoOf ''Xeon'' ''85'' 2400 0 0, infoOf ''Xeon'' ''85'' 2400 0 1]))
           exactOps (monitorOf (snapshotOf (cpuOf 100 50 800) [cpuOf 100 50 800] [])) =
          (Inr ms, m')
        \<and> length ms = 2
        \<and> cpuInfo (ms ! 0) = infoOf ''Xeon'' ''85'' 2400 0 0
        \<and> cpuInfo (ms ! 1) = infoOf ''Xeon'' ''85'' 2400 0 1"
proof -
  let ?new = "snapshotOf (cpuOf 110 55 830) [cpuOf 60 30 400, cpuOf 50 25 430]
      [infoOf ''Xeon'' ''85'' 2400 0 0, infoOf ''Xeon'' ''85'' 2400 0 1]"
  let ?old = "snapshotOf (cpuOf 100 50 800) [cpuOf 100 50 800] []"
  have inv: "CPUInfo ?new = [] \<or> length (list ?new) \<le> length (CPUInfo ?new)"
    by (simp add: snapshotOf_def)
  obtain ms m' where ms: "FetchCores (\<lambda>m. Inr ?new) exactOps (monitorOf ?old) = (Inr ms, m')"
      "length ms = length (list ?new)"
      "\<forall>i<length (list ?new).
         cpuInfo (ms ! i) =
           (if CPUInfo ?new = [] then zeroCPUInfo exactOps else CPUInfo ?new ! i)"
    using C10_cpu_info_in_bounds [of "\<lambda>m. Inr ?new" "monitorOf ?old" ?new exactOps,
        OF refl inv]
    by blast
  have l: "list ?new = [cpuOf 60 30 400, cpuOf 50 25 430]"
      "CPUInfo ?new = [infoOf ''Xeon'' ''85'' 2400 0 0, infoOf ''Xeon'' ''85'' 2400 0 1]"
    by (simp_all add: snapshotOf_def)
  have "cpuInfo (ms ! 0) = infoOf ''Xeon'' ''85'' 2400 0 0"
    using ms(3) [rule_format, of 0] by (simp add: l)
  moreover have "cpuInfo (ms ! 1) = infoOf ''Xeon'' ''85'' 2400 0 1"
    using ms(3) [rule_format, of 1] by (simp add: l)
  moreover have "length ms = 2"
    using ms(2) by (simp add: l)
  ultimately show ?thesis using ms(1) by blast
qed

end
